theory Spec2Isabelle
  imports Complex_Main
begin

section \<open>Conventions of the embedding\<close>

text \<open>
  The analytics engine of the smart-energy platform (\<^verbatim>\<open>analysis.py\<close>,
  \<^verbatim>\<open>carbon_footprint.py\<close>, \<^verbatim>\<open>energy_prediction_model.py\<close>) is embedded as
  pure functions.

  \<^item> A Python float is a \<^typ>\<open>real\<close>: arithmetic is exact, there is no
    rounding error, overflow or infinity. Where the code can produce NaN (the mean,
    quantile or standard deviation of too short a series) the value is an
    \<^typ>\<open>real option\<close> with \<open>None\<close> for NaN, and a comparison against NaN is
    \<open>False\<close>, as in numpy.
  \<^item> A DataFrame is the list of its rows; a column name is the function reading that
    column from a row.
  \<^item> A naive timestamp is the number of microseconds since 1970-01-01T00:00:00.
  \<^item> A raised exception is \<open>Inl\<close> of the result type.
  \<^item> The behaviour of the pandas, numpy and scikit-learn calls the code makes
    (\<open>groupby().sum()\<close>, \<open>quantile\<close>, \<open>rolling().mean()\<close>, \<open>std\<close>,
    \<open>date_range\<close>, \<open>LinearRegression.predict\<close>) follows the libraries'
    documented semantics; the least-squares solver itself is a parameter.
\<close>

datatype py_error = ValueError | ZeroDivisionError | RuntimeError | NotFittedError

type_synonym timestamp = int

definition usec_per_hour :: int where
  "usec_per_hour = 3600000000"

definition usec_per_day :: int where
  "usec_per_day = 86400000000"

text \<open>\<open>.dt.date\<close> / \<open>.date()\<close>: the calendar day, as its number since 1970-01-01.\<close>

definition date_of :: "timestamp \<Rightarrow> int" where
  "date_of ts = ts div usec_per_day"

text \<open>\<open>.hour\<close>\<close>

definition hour_of :: "timestamp \<Rightarrow> int" where
  "hour_of ts = (ts mod usec_per_day) div usec_per_hour"

text \<open>\<open>.weekday()\<close>: Monday is 0; 1970-01-01 was a Thursday.\<close>

definition weekday_of :: "timestamp \<Rightarrow> int" where
  "weekday_of ts = (date_of ts + 3) mod 7"

text \<open>Proleptic Gregorian (year, month, day) of a day number.\<close>

definition civil_from_days :: "int \<Rightarrow> int \<times> int \<times> int" where
  "civil_from_days n =
     (let z = n + 719468;
          era = z div 146097;
          doe = z mod 146097;
          yoe = (doe - doe div 1460 + doe div 36524 - doe div 146096) div 365;
          y = yoe + era * 400;
          doy = doe - (365 * yoe + yoe div 4 - yoe div 100);
          mp = (5 * doy + 2) div 153;
          d = doy - (153 * mp + 2) div 5 + 1;
          m = (if mp < 10 then mp + 3 else mp - 9)
      in (if m \<le> 2 then y + 1 else y, m, d))"

text \<open>\<open>.month\<close> and \<open>.day\<close>\<close>

definition month_of :: "timestamp \<Rightarrow> int" where
  "month_of ts = fst (snd (civil_from_days (date_of ts)))"

definition day_of :: "timestamp \<Rightarrow> int" where
  "day_of ts = snd (snd (civil_from_days (date_of ts)))"

record reading =
  timestamp :: timestamp
  power_kw :: real
  energy_consumed_kwh :: real
  machine_id :: string

section \<open>analysis.py\<close>

subsection \<open>Daily consumption\<close>

record daily_aggregate =
  date :: int
  total_energy_kwh :: real

text \<open>
  \<open>data.groupby('date')[energy_column].sum().reset_index()\<close>: one row per distinct
  date, in ascending order of the date, holding the sum of the group's energy values.
\<close>

definition calculate_daily_consumption ::
  "'r list \<Rightarrow> ('r \<Rightarrow> timestamp) \<Rightarrow> ('r \<Rightarrow> real) \<Rightarrow> daily_aggregate list" where
  "calculate_daily_consumption df date_column energy_column =
     map (\<lambda>d. \<lparr>date = d,
               total_energy_kwh =
                 sum_list (map energy_column (filter (\<lambda>r. date_of (date_column r) = d) df))\<rparr>)
         (sort (remdups (map (\<lambda>r. date_of (date_column r)) df)))"

subsection \<open>Peak periods\<close>

text \<open>\<open>Series.mean()\<close>, \<open>min()\<close>, \<open>max()\<close>: NaN on an empty series.\<close>

definition mean :: "real list \<Rightarrow> real option" where
  "mean xs = (if xs = [] then None else Some (sum_list xs / real (length xs)))"

definition series_min :: "real list \<Rightarrow> real option" where
  "series_min xs = (if xs = [] then None else Some (Min (set xs)))"

definition series_max :: "real list \<Rightarrow> real option" where
  "series_max xs = (if xs = [] then None else Some (Max (set xs)))"

text \<open>
  \<open>Series.quantile(q)\<close> with the default linear interpolation: \<open>q\<close> outside
  \<open>[0, 1]\<close> raises ValueError, an empty series gives NaN, otherwise the value at
  the virtual index \<open>q * (n - 1)\<close> of the sorted series, interpolated between the
  order statistics at its floor and the next index.
\<close>

definition quantile :: "real list \<Rightarrow> real \<Rightarrow> py_error + real option" where
  "quantile xs q =
     (if q < 0 \<or> 1 < q then Inl ValueError
      else if xs = [] then Inr None
      else let s = sort xs;
               n = length xs;
               h = q * real (n - 1);
               lo = nat \<lfloor>h\<rfloor>;
               hi = min (lo + 1) (n - 1);
               frac = h - real lo
           in Inr (Some (s ! lo + (s ! hi - s ! lo) * frac)))"

record peak_summary =
  peak_threshold :: "real option"
  peak_count :: nat
  peak_percentage :: real
  average_peak_power :: "real option"
  min_peak_power :: "real option"
  max_peak_power :: "real option"

text \<open>A comparison \<open>x >= threshold\<close> is False when the threshold is NaN.\<close>

definition ge_nan :: "real \<Rightarrow> real option \<Rightarrow> bool" where
  "ge_nan x t = (case t of None \<Rightarrow> False | Some v \<Rightarrow> v \<le> x)"

definition identify_peak_periods ::
  "'r list \<Rightarrow> ('r \<Rightarrow> real) \<Rightarrow> real \<Rightarrow> py_error + peak_summary" where
  "identify_peak_periods df power_column percentile =
     (case quantile (map power_column df) (percentile / 100) of
        Inl e \<Rightarrow> Inl e
      | Inr threshold \<Rightarrow>
          (let peak_readings = filter (\<lambda>r. ge_nan (power_column r) threshold) df;
               peak_cnt = length peak_readings;
               total_count = length df
           in if total_count = 0 then Inl ZeroDivisionError
              else Inr \<lparr>peak_threshold = threshold,
                        peak_count = peak_cnt,
                        peak_percentage = real peak_cnt / real total_count * 100,
                        average_peak_power = mean (map power_column peak_readings),
                        min_peak_power = series_min (map power_column peak_readings),
                        max_peak_power = series_max (map power_column peak_readings)\<rparr>))"

subsection \<open>Spike detection\<close>

text \<open>
  \<open>rolling(window=w, min_periods=1).mean()\<close>: at index \<open>i\<close> the mean of the values
  at the indices \<open>max(0, i - w + 1) .. i\<close>. The subtraction below is on
  \<^typ>\<open>nat\<close>, so it stops at 0.
\<close>

definition rolling_window :: "nat \<Rightarrow> real list \<Rightarrow> nat \<Rightarrow> real list" where
  "rolling_window w xs i = drop (i + 1 - w) (take (i + 1) xs)"

definition rolling_mean :: "nat \<Rightarrow> real list \<Rightarrow> real list" where
  "rolling_mean w xs =
     map (\<lambda>i. sum_list (rolling_window w xs i) / real (length (rolling_window w xs i)))
         [0..<length xs]"

text \<open>\<open>Series.std()\<close>: the sample standard deviation (ddof = 1), NaN below two values.\<close>

definition variance :: "real list \<Rightarrow> real" where
  "variance xs =
     (let m = sum_list xs / real (length xs)
      in sum_list (map (\<lambda>x. (x - m)\<^sup>2) xs) / real (length xs - 1))"

definition std :: "real list \<Rightarrow> real option" where
  "std xs = (if length xs < 2 then None else Some (sqrt (variance xs)))"

record 'r anomaly_record =
  row :: 'r
  rolling_avg :: real
  deviation :: real
  is_anomaly :: bool

text \<open>\<open>deviation > threshold * std\<close>, False when the standard deviation is NaN.\<close>

definition gt_nan :: "real \<Rightarrow> real \<Rightarrow> real option \<Rightarrow> bool" where
  "gt_nan d t s = (case s of None \<Rightarrow> False | Some v \<Rightarrow> t * v < d)"

text \<open>
  \<open>rolling\<close> rejects a negative window, and a window of 0 with \<open>min_periods=1\<close>,
  with ValueError, whatever the series holds.
\<close>

definition detect_abnormal_spikes ::
  "'r list \<Rightarrow> ('r \<Rightarrow> real) \<Rightarrow> int \<Rightarrow> real \<Rightarrow> py_error + 'r anomaly_record list" where
  "detect_abnormal_spikes df power_column window_size deviation_threshold =
     (if window_size \<le> 0 then Inl ValueError
      else let power = map power_column df;
               avgs = rolling_mean (nat window_size) power;
               devs = map (\<lambda>(p, a). p - a) (zip power avgs);
               std_deviation = std devs
           in Inr (map (\<lambda>(r, a, d).
                          \<lparr>row = r, rolling_avg = a, deviation = d,
                           is_anomaly = gt_nan d deviation_threshold std_deviation\<rparr>)
                       (zip df (zip avgs devs))))"

section \<open>carbon_footprint.py\<close>

definition DEFAULT_EMISSION_FACTOR :: real where
  "DEFAULT_EMISSION_FACTOR = 385 / 1000"

definition calculate_daily_co2_emissions :: "real \<Rightarrow> real \<Rightarrow> real" where
  "calculate_daily_co2_emissions daily_energy_kwh emission_factor =
     daily_energy_kwh * emission_factor"

definition calculate_monthly_co2_emissions :: "real list \<Rightarrow> real" where
  "calculate_monthly_co2_emissions daily_emissions_list = sum_list daily_emissions_list"

record daily_co2 =
  co2_date :: int
  co2_total_energy_kwh :: real
  co2_kg :: real

text \<open>
  The function groups on the fixed column \<open>'timestamp'\<close> (here the parameter
  \<open>ts_column\<close>), sums the energy per day as \<open>calculate_daily_consumption\<close> does,
  multiplies every daily total by the factor and sums the products.
\<close>

definition calculate_monthly_co2_from_dataframe ::
  "'r list \<Rightarrow> ('r \<Rightarrow> timestamp) \<Rightarrow> ('r \<Rightarrow> real) \<Rightarrow> real \<Rightarrow> daily_co2 list \<times> real" where
  "calculate_monthly_co2_from_dataframe df ts_column energy_column emission_factor =
     (let daily_energy =
            map (\<lambda>d. (d, sum_list (map energy_column
                                      (filter (\<lambda>r. date_of (ts_column r) = d) df))))
                (sort (remdups (map (\<lambda>r. date_of (ts_column r)) df)));
          daily = map (\<lambda>(d, e). \<lparr>co2_date = d, co2_total_energy_kwh = e,
                                 co2_kg = e * emission_factor\<rparr>) daily_energy
      in (daily, sum_list (map co2_kg daily)))"

section \<open>energy_prediction_model.py\<close>

record linear_regression =
  coef :: "real list"
  intercept :: real

text \<open>
  The predictor owns a scikit-learn model (\<open>None\<close> while it is unfitted) and its own
  flag \<open>is_trained\<close>.
\<close>

record predictor =
  model :: "linear_regression option"
  is_trained :: bool

definition init_predictor :: predictor where
  "init_predictor = \<lparr>model = None, is_trained = False\<rparr>"

definition feature_names :: "string list" where
  "feature_names = [''hour'', ''day_of_week'', ''day_of_month'', ''month'',
                    ''is_weekend'', ''is_business_hour'']"

definition extract_time_features :: "timestamp \<Rightarrow> int list" where
  "extract_time_features ts =
     (let hour = hour_of ts;
          day_of_week = weekday_of ts;
          day_of_month = day_of ts;
          month = month_of ts;
          is_weekend = (if day_of_week \<ge> 5 then 1 else 0);
          is_business_hour = (if 9 \<le> hour \<and> hour < 17 then 1 else 0)
      in [hour, day_of_week, day_of_month, month, is_weekend, is_business_hour])"

text \<open>\<open>LinearRegression.predict\<close> on one feature row: intercept plus the dot product.\<close>

definition model_predict :: "linear_regression \<Rightarrow> int list \<Rightarrow> real" where
  "model_predict m features =
     intercept m + sum_list (map (\<lambda>(c, f). c * real_of_int f) (zip (coef m) features))"

definition prepare_data ::
  "'r list \<Rightarrow> ('r \<Rightarrow> timestamp) \<Rightarrow> ('r \<Rightarrow> real) \<Rightarrow> int list list \<times> real list" where
  "prepare_data data_df ts_column energy_column =
     (map (\<lambda>r. extract_time_features (ts_column r)) data_df, map energy_column data_df)"

text \<open>
  \<open>train\<close>: \<open>fit\<close> is scikit-learn's least-squares solver, a parameter here; it
  may raise. On success the fitted model is stored and the flag set. The metrics the
  source then prints and returns are not part of the state and are left out.
\<close>

definition train ::
  "(int list list \<Rightarrow> real list \<Rightarrow> py_error + linear_regression) \<Rightarrow>
   predictor \<Rightarrow> 'r list \<Rightarrow> ('r \<Rightarrow> timestamp) \<Rightarrow> ('r \<Rightarrow> real) \<Rightarrow> py_error + predictor" where
  "train fit p data_df ts_column energy_column =
     (case prepare_data data_df ts_column energy_column of
        (X, y) \<Rightarrow>
          (case fit X y of
             Inl e \<Rightarrow> Inl e
           | Inr m \<Rightarrow> Inr (p\<lparr>model := Some m, is_trained := True\<rparr>)))"

text \<open>
  \<open>round(x, 2)\<close> on a numpy float: the nearest multiple of 1/100, a tie going to
  the even one.
\<close>

definition round_half_even :: "real \<Rightarrow> int" where
  "round_half_even x =
     (let f = \<lfloor>x\<rfloor>; d = x - of_int f
      in if d < 1 / 2 then f
         else if 1 / 2 < d then f + 1
         else if even f then f else f + 1)"

definition round2 :: "real \<Rightarrow> real" where
  "round2 x = of_int (round_half_even (x * 100)) / 100"

record prediction =
  pred_timestamp :: timestamp
  predicted_energy_kwh :: real
  features :: "(string \<times> int) list"
  confidence :: string

definition predict :: "predictor \<Rightarrow> timestamp \<Rightarrow> py_error + prediction" where
  "predict p ts =
     (if \<not> is_trained p then Inl RuntimeError
      else let feats = extract_time_features ts
           in case model p of
                None \<Rightarrow> Inl NotFittedError
              | Some m \<Rightarrow>
                  (let prediction = model_predict m feats;
                       prediction = max 0 prediction
                   in Inr \<lparr>pred_timestamp = ts,
                           predicted_energy_kwh = round2 prediction,
                           features = zip feature_names feats,
                           confidence = ''Model trained and ready for predictions''\<rparr>))"

text \<open>
  \<open>pd.date_range(start, end, freq)\<close> for a fixed-step frequency, the step given in
  microseconds (\<open>'H'\<close> is \<open>usec_per_hour\<close>, \<open>'D'\<close> is \<open>usec_per_day\<close>, \<open>'-1H'\<close>
  is \<open>- usec_per_hour\<close>): the timestamps \<open>start + i * step\<close> for
  \<open>0 \<le> i \<le> (end - start) // step\<close>, none when that quotient is negative. A step of
  0 divides by zero.
\<close>

definition date_range :: "timestamp \<Rightarrow> timestamp \<Rightarrow> int \<Rightarrow> py_error + timestamp list" where
  "date_range start_date end_date step =
     (if step = 0 then Inl ZeroDivisionError
      else Inr (map (\<lambda>i. start_date + i * step) [0..(end_date - start_date) div step]))"

text \<open>
  \<open>predict_range\<close>. With no timestamp \<open>np.array([])\<close> is one-dimensional and
  \<open>LinearRegression.predict\<close> rejects it with ValueError.
\<close>

definition predict_range ::
  "predictor \<Rightarrow> timestamp \<Rightarrow> timestamp \<Rightarrow> int \<Rightarrow> py_error + (timestamp \<times> real) list" where
  "predict_range p start_date end_date frequency =
     (if \<not> is_trained p then Inl RuntimeError
      else case date_range start_date end_date frequency of
             Inl e \<Rightarrow> Inl e
           | Inr timestamps \<Rightarrow>
               (let features_list = map extract_time_features timestamps
                in case model p of
                     None \<Rightarrow> Inl NotFittedError
                   | Some m \<Rightarrow>
                       if features_list = [] then Inl ValueError
                       else let predictions = map (model_predict m) features_list;
                                predictions = map (\<lambda>x. max x 0) predictions
                            in Inr (zip timestamps predictions)))"

text \<open>
  \<open>explain_model\<close>. \<open>now\<close> is the clock reading; \<open>render\<close> lays the model and the
  example prediction out as text (Python's number formatting, a parameter here).
\<close>

definition example_time :: "timestamp \<Rightarrow> timestamp" where
  "example_time now = date_of now * usec_per_day + 14 * usec_per_hour"

definition explain_model ::
  "(linear_regression \<Rightarrow> prediction \<Rightarrow> string) \<Rightarrow> timestamp \<Rightarrow> predictor \<Rightarrow> py_error + string" where
  "explain_model render now p =
     (if \<not> is_trained p then Inr ''Model not trained yet. Call train() first.''
      else case model p of
             None \<Rightarrow> Inl NotFittedError
           | Some m \<Rightarrow>
               (case predict p (example_time now) of
                  Inl e \<Rightarrow> Inl e
                | Inr example \<Rightarrow> Inr (render m example)))"

section \<open>Carbon conversion\<close>

text \<open>
  C9. The conversion is the product of energy and factor: doubling the energy doubles the
  result, 500 kWh at factor 0.385 is 192.5 kg, and every daily row of the DataFrame
  variant holds its energy total times the factor.
\<close>

theorem co2_conversion_linear_exact:
  "calculate_daily_co2_emissions e f = e * f
   \<and> calculate_daily_co2_emissions (2 * e) f = 2 * calculate_daily_co2_emissions e f
   \<and> calculate_daily_co2_emissions 500 (385 / 1000) = 1925 / 10
   \<and> calculate_daily_co2_emissions 500 DEFAULT_EMISSION_FACTOR = 1925 / 10
   \<and> list_all (\<lambda>r. co2_kg r = co2_total_energy_kwh r * f)
        (fst (calculate_monthly_co2_from_dataframe df tc ec f))"
  by (simp add: calculate_daily_co2_emissions_def DEFAULT_EMISSION_FACTOR_def
      calculate_monthly_co2_from_dataframe_def list_all_iff Let_def)

section \<open>Daily aggregation\<close>

lemma sum_groups_filter:
  fixes e :: "'r \<Rightarrow> real"
  assumes "finite D"
  shows "(\<Sum>d\<in>D. sum_list (map e (filter (\<lambda>r. k r = d) df)))
         = sum_list (map e (filter (\<lambda>r. k r \<in> D) df))"
proof (induction df)
  case Nil
  then show ?case by simp
next
  case (Cons x df)
  have "(\<Sum>d\<in>D. sum_list (map e (filter (\<lambda>r. k r = d) (x # df))))
        = (\<Sum>d\<in>D. (if k x = d then e x else 0) + sum_list (map e (filter (\<lambda>r. k r = d) df)))"
    by (rule sum.cong) auto
  also have "\<dots> = (\<Sum>d\<in>D. if k x = d then e x else 0)
                  + (\<Sum>d\<in>D. sum_list (map e (filter (\<lambda>r. k r = d) df)))"
    by (simp add: sum.distrib)
  also have "(\<Sum>d\<in>D. if k x = d then e x else 0) = (if k x \<in> D then e x else 0)"
    using assms by simp
  finally show ?case using Cons.IH by simp
qed

lemma sum_group_totals:
  fixes e :: "'r \<Rightarrow> real" and k :: "'r \<Rightarrow> int"
  shows "sum_list (map (\<lambda>d. sum_list (map e (filter (\<lambda>r. k r = d) df)))
                       (sort (remdups (map k df))))
         = sum_list (map e df)"
proof -
  let ?ks = "sort (remdups (map k df))"
  have "distinct ?ks" by simp
  then have "sum_list (map (\<lambda>d. sum_list (map e (filter (\<lambda>r. k r = d) df))) ?ks)
             = (\<Sum>d\<in>set ?ks. sum_list (map e (filter (\<lambda>r. k r = d) df)))"
    by (rule sum_list_distinct_conv_sum_set)
  also have "\<dots> = sum_list (map e (filter (\<lambda>r. k r \<in> set ?ks) df))"
    by (rule sum_groups_filter) simp
  also have "filter (\<lambda>r. k r \<in> set ?ks) df = df"
    by (simp add: filter_id_conv)
  finally show ?thesis .
qed

text \<open>
  C1. For a non-empty reading set the daily totals returned by
  \<open>calculate_daily_consumption\<close> add up to the sum of the input's energy column
  (exactly, in exact arithmetic, hence within a relative tolerance of 1e-6).
\<close>

theorem daily_totals_preserve_sum:
  assumes "df \<noteq> []"
  shows "sum_list (map total_energy_kwh (calculate_daily_consumption df dc ec))
           = sum_list (map ec df)
         \<and> \<bar>sum_list (map total_energy_kwh (calculate_daily_consumption df dc ec))
              - sum_list (map ec df)\<bar> \<le> 1 / 1000000 * \<bar>sum_list (map ec df)\<bar>"
proof -
  have "sum_list (map total_energy_kwh (calculate_daily_consumption df dc ec))
        = sum_list (map (\<lambda>d. sum_list (map ec (filter (\<lambda>r. date_of (dc r) = d) df)))
                        (sort (remdups (map (\<lambda>r. date_of (dc r)) df))))"
    by (simp add: calculate_daily_consumption_def comp_def)
  also have "\<dots> = sum_list (map ec df)"
    by (rule sum_group_totals)
  finally show ?thesis by simp
qed

theorem daily_totals_preserve_sum_witness:
  "[(20454 * usec_per_day + 8 * usec_per_hour, 100::real),
    (20454 * usec_per_day + 9 * usec_per_hour, 150),
    (20455 * usec_per_day + 8 * usec_per_hour, 200)] \<noteq> []
   \<and> calculate_daily_consumption
        [(20454 * usec_per_day + 8 * usec_per_hour, 100::real),
         (20454 * usec_per_day + 9 * usec_per_hour, 150),
         (20455 * usec_per_day + 8 * usec_per_hour, 200)] fst snd
      = [\<lparr>date = 20454, total_energy_kwh = 250\<rparr>, \<lparr>date = 20455, total_energy_kwh = 200\<rparr>]
   \<and> sum_list (map total_energy_kwh (calculate_daily_consumption
        [(20454 * usec_per_day + 8 * usec_per_hour, 100::real),
         (20454 * usec_per_day + 9 * usec_per_hour, 150),
         (20455 * usec_per_day + 8 * usec_per_hour, 200)] fst snd)) = 450"
  using daily_totals_preserve_sum
    [of "[(20454 * usec_per_day + 8 * usec_per_hour, 100::real),
         (20454 * usec_per_day + 9 * usec_per_hour, 150),
         (20455 * usec_per_day + 8 * usec_per_hour, 200)]" fst snd]
  by (simp add: calculate_daily_consumption_def date_of_def usec_per_day_def usec_per_hour_def)

section \<open>Empty input\<close>

text \<open>
  C7. On an empty reading set \<open>identify_peak_periods\<close> raises (ValueError for a
  percentile outside 0..100, ZeroDivisionError otherwise), \<open>calculate_daily_consumption\<close>
  returns no rows, and \<open>detect_abnormal_spikes\<close> returns no rows for every window
  size that \<open>rolling\<close> accepts (1 or more).
\<close>

theorem empty_input_behaviour:
  "identify_peak_periods [] pc p
     = Inl (if p / 100 < 0 \<or> 1 < p / 100 then ValueError else ZeroDivisionError)
   \<and> calculate_daily_consumption [] dc ec = []
   \<and> detect_abnormal_spikes [] pc w t = (if w \<le> 0 then Inl ValueError else Inr [])"
  by (simp add: identify_peak_periods_def quantile_def calculate_daily_consumption_def
      detect_abnormal_spikes_def rolling_mean_def)

section \<open>The forecaster before training\<close>

text \<open>
  C2 (amended). On an untrained forecaster \<open>predict\<close> and \<open>predict_range\<close> raise
  RuntimeError; \<open>explain_model\<close> does not raise but returns the message
  "Model not trained yet. Call train() first." as its normal result.
\<close>

theorem untrained_calls:
  assumes "\<not> is_trained p"
  shows "predict p t = Inl RuntimeError
         \<and> predict_range p s e f = Inl RuntimeError
         \<and> explain_model render now p = Inr ''Model not trained yet. Call train() first.''"
  using assms by (simp add: predict_def predict_range_def explain_model_def)

theorem untrained_calls_witness:
  "\<not> is_trained init_predictor
   \<and> predict init_predictor 0 = Inl RuntimeError
   \<and> predict_range init_predictor 0 usec_per_day usec_per_hour = Inl RuntimeError
   \<and> explain_model (\<lambda>m ex. []) 0 init_predictor
       = Inr ''Model not trained yet. Call train() first.''"
  using untrained_calls [of init_predictor 0 0 usec_per_day usec_per_hour "\<lambda>m ex. []" 0]
  by (simp add: init_predictor_def)

text \<open>
  The claim as stated fails for \<open>explain_model\<close>: on the freshly constructed,
  untrained predictor the call returns normally.
\<close>

theorem explain_untrained_counterexample:
  "\<not> is_trained init_predictor \<and> \<not> isl (explain_model (\<lambda>m ex. []) 0 init_predictor)"
  by (simp add: init_predictor_def explain_model_def)

section \<open>The trained forecaster\<close>

lemma train_trained:
  assumes "train fit p0 df tc ec = Inr p"
  shows "is_trained p \<and> (\<exists>m. model p = Some m)"
  using assms by (auto simp: train_def prepare_data_def split: sum.splits)

lemma round_half_even_bounds:
  "\<bar>of_int (round_half_even x) - x\<bar> \<le> 1 / 2"
  unfolding round_half_even_def Let_def
  by (auto simp: abs_if; linarith)

lemma round_half_even_nonneg: "0 \<le> x \<Longrightarrow> 0 \<le> round_half_even x"
  unfolding round_half_even_def Let_def
  by (auto; linarith)

lemma round2_nonneg: "0 \<le> x \<Longrightarrow> 0 \<le> round2 x"
  unfolding round2_def using round_half_even_nonneg [of "x * 100"] by simp

lemma round2_close: "\<bar>round2 x - x\<bar> \<le> 1 / 200"
proof -
  have "\<bar>of_int (round_half_even (x * 100)) - x * 100\<bar> \<le> 1 / 2"
    by (rule round_half_even_bounds)
  then show ?thesis unfolding round2_def by (simp add: abs_if field_simps split: if_splits)
qed

lemma features_epoch: "extract_time_features 0 = [0, 3, 1, 1, 0, 0]"
  by code_simp

lemma features_sample:
  "extract_time_features 3600000000 = [1, 3, 1, 1, 0, 0]"
  "extract_time_features 50400000000 = [14, 3, 1, 1, 0, 1]"
  by code_simp+

lemma predict_trained:
  assumes "is_trained p" "model p = Some m"
  shows "predict p t =
           Inr \<lparr>pred_timestamp = t,
                predicted_energy_kwh = round2 (max 0 (model_predict m (extract_time_features t))),
                features = zip feature_names (extract_time_features t),
                confidence = ''Model trained and ready for predictions''\<rparr>"
  using assms by (simp add: predict_def Let_def)

lemma predict_range_trained:
  assumes "is_trained p" "model p = Some m"
  shows "predict_range p s e f =
           (if f = 0 then Inl ZeroDivisionError
            else if (e - s) div f < 0 then Inl ValueError
            else Inr (map (\<lambda>ts. (ts, max (model_predict m (extract_time_features ts)) 0))
                          (map (\<lambda>i. s + i * f) [0..(e - s) div f])))"
proof -
  have z: "zip xs (map g xs) = map (\<lambda>x. (x, g x)) xs" for xs :: "int list" and g :: "int \<Rightarrow> real"
    by (induction xs) auto
  have e: "([0..k] = []) = (k < 0)" for k :: int
    by (simp add: upto_Nil)
  show ?thesis
    using assms
    by (simp add: predict_range_def date_range_def Let_def e z [where g = "\<lambda>ts. max (model_predict m (extract_time_features ts)) 0", symmetric] comp_def)
qed

text \<open>
  C3. After training, \<open>predict\<close> returns, for every timestamp, a prediction whose
  \<open>predicted_energy_kwh\<close> is not negative; every row that \<open>predict_range\<close> returns
  is not negative either, and for a range with \<open>start \<le> end\<close> and a positive step it
  does return rows.
\<close>

theorem trained_predictions_nonneg:
  assumes "train fit p0 df tc ec = Inr p"
  shows "(\<exists>r. predict p t = Inr r \<and> 0 \<le> predicted_energy_kwh r)
         \<and> (\<forall>rows. predict_range p s e f = Inr rows \<longrightarrow> list_all (\<lambda>row. 0 \<le> snd row) rows)
         \<and> (s \<le> e \<and> 0 < f \<longrightarrow> (\<exists>rows. predict_range p s e f = Inr rows \<and> rows \<noteq> []))"
proof -
  from assms obtain m where tr: "is_trained p" "model p = Some m"
    using train_trained by blast
  have 1: "\<exists>r. predict p t = Inr r \<and> 0 \<le> predicted_energy_kwh r"
    by (simp add: predict_trained [OF tr] round2_nonneg)
  have 2: "\<forall>rows. predict_range p s e f = Inr rows \<longrightarrow> list_all (\<lambda>row. 0 \<le> snd row) rows"
    by (auto simp: predict_range_trained [OF tr] list_all_iff split: if_splits)
  have 3: "s \<le> e \<and> 0 < f \<longrightarrow> (\<exists>rows. predict_range p s e f = Inr rows \<and> rows \<noteq> [])"
  proof
    assume h: "s \<le> e \<and> 0 < f"
    then have "0 \<le> (e - s) div f" by (simp add: pos_imp_zdiv_nonneg_iff)
    with h show "\<exists>rows. predict_range p s e f = Inr rows \<and> rows \<noteq> []"
      by (simp add: predict_range_trained [OF tr] upto_Nil)
  qed
  from 1 2 3 show ?thesis by blast
qed

theorem trained_predictions_nonneg_witness:
  "train (\<lambda>X y. Inr \<lparr>coef = [- 1, 0, 0, 0, 0, 0], intercept = 0\<rparr>) init_predictor
         [(0 :: int, 5 :: real)] fst snd
     = Inr \<lparr>model = Some \<lparr>coef = [- 1, 0, 0, 0, 0, 0], intercept = 0\<rparr>, is_trained = True\<rparr>
   \<and> predict \<lparr>model = Some \<lparr>coef = [- 1, 0, 0, 0, 0, 0], intercept = 0\<rparr>, is_trained = True\<rparr>
         50400000000
       = Inr \<lparr>pred_timestamp = 50400000000, predicted_energy_kwh = 0,
              features = zip feature_names [14, 3, 1, 1, 0, 1],
              confidence = ''Model trained and ready for predictions''\<rparr>
   \<and> (\<exists>r. predict \<lparr>model = Some \<lparr>coef = [- 1, 0, 0, 0, 0, 0], intercept = 0\<rparr>,
                      is_trained = True\<rparr> 50400000000 = Inr r
           \<and> 0 \<le> predicted_energy_kwh r)
   \<and> (\<exists>rows. predict_range \<lparr>model = Some \<lparr>coef = [- 1, 0, 0, 0, 0, 0], intercept = 0\<rparr>,
                               is_trained = True\<rparr> 0 3600000000 3600000000 = Inr rows
              \<and> rows \<noteq> [] \<and> list_all (\<lambda>row. 0 \<le> snd row) rows)"
proof -
  let ?P = "\<lparr>model = Some \<lparr>coef = [- 1, 0, 0, 0, 0, 0], intercept = 0\<rparr>, is_trained = True\<rparr>"
  have tr: "train (\<lambda>X y. Inr \<lparr>coef = [- 1, 0, 0, 0, 0, 0], intercept = 0\<rparr>) init_predictor
              [(0 :: int, 5 :: real)] fst snd = Inr ?P"
    by (simp add: train_def prepare_data_def init_predictor_def)
  note th = trained_predictions_nonneg [OF tr, of 50400000000 0 3600000000 3600000000]
  have ev: "predict ?P 50400000000
       = Inr \<lparr>pred_timestamp = 50400000000, predicted_energy_kwh = 0,
              features = zip feature_names [14, 3, 1, 1, 0, 1],
              confidence = ''Model trained and ready for predictions''\<rparr>"
    by (simp add: predict_def features_sample model_predict_def round2_def round_half_even_def)
  from th tr ev show ?thesis by auto
qed

text \<open>
  C10. On a trained forecaster \<open>predict t\<close> returns the clamped model output rounded to
  two decimals, \<open>predict_range\<close> the clamped output unrounded; so the value of
  \<open>predict t\<close> is the rounding of the range's entry at \<open>t\<close>, within 0.005 of it, and
  there is a trained model and a timestamp at which the two differ.
\<close>

theorem predict_rounds_range_does_not:
  assumes "is_trained p" "model p = Some m"
  shows "(\<exists>r. predict p t = Inr r
              \<and> predicted_energy_kwh r = round2 (max 0 (model_predict m (extract_time_features t))))
         \<and> (\<forall>rows v. predict_range p s e f = Inr rows \<and> (t, v) \<in> set rows \<longrightarrow>
               v = max 0 (model_predict m (extract_time_features t))
               \<and> (\<exists>r. predict p t = Inr r \<and> predicted_energy_kwh r = round2 v
                      \<and> \<bar>predicted_energy_kwh r - v\<bar> \<le> 1 / 200))
         \<and> (\<exists>p' t' v r. is_trained p' \<and> predict_range p' t' t' usec_per_hour = Inr [(t', v)]
                  \<and> predict p' t' = Inr r \<and> predicted_energy_kwh r \<noteq> v)"
proof -
  have 1: "\<exists>r. predict p t = Inr r
              \<and> predicted_energy_kwh r = round2 (max 0 (model_predict m (extract_time_features t)))"
    by (simp add: predict_trained [OF assms])
  have 2: "v = max 0 (model_predict m (extract_time_features t))
           \<and> (\<exists>r. predict p t = Inr r \<and> predicted_energy_kwh r = round2 v
                  \<and> \<bar>predicted_energy_kwh r - v\<bar> \<le> 1 / 200)"
    if h: "predict_range p s e f = Inr rows \<and> (t, v) \<in> set rows" for rows v
  proof -
    from h have "v = max (model_predict m (extract_time_features t)) 0"
      by (auto simp: predict_range_trained [OF assms] split: if_splits)
    then have v: "v = max 0 (model_predict m (extract_time_features t))"
      by (simp add: max.commute)
    show ?thesis
      using round2_close [of v] v by (simp add: predict_trained [OF assms] del: max.bounded_iff)
  qed
  let ?P = "\<lparr>model = Some \<lparr>coef = [0, 0, 0, 0, 0, 0], intercept = 1 / 1000\<rparr>,
             is_trained = True\<rparr>"
  have "is_trained ?P \<and> predict_range ?P 0 0 usec_per_hour = Inr [(0, 1 / 1000)]
        \<and> predict ?P 0
            = Inr \<lparr>pred_timestamp = 0, predicted_energy_kwh = 0,
                   features = zip feature_names [0, 3, 1, 1, 0, 0],
                   confidence = ''Model trained and ready for predictions''\<rparr>"
    by (simp add: predict_def predict_range_def date_range_def features_epoch model_predict_def
        usec_per_hour_def round2_def round_half_even_def)
  then have 3: "\<exists>p' t' v r. is_trained p' \<and> predict_range p' t' t' usec_per_hour = Inr [(t', v)]
                  \<and> predict p' t' = Inr r \<and> predicted_energy_kwh r \<noteq> v"
    by (intro exI [of _ ?P] exI [of _ 0] exI [of _ "1 / 1000"]) auto
  from 1 2 3 show ?thesis by blast
qed

theorem predict_rounds_range_does_not_witness:
  "is_trained \<lparr>model = Some \<lparr>coef = [0, 0, 0, 0, 0, 0], intercept = 1 / 1000\<rparr>, is_trained = True\<rparr>
   \<and> predict_range \<lparr>model = Some \<lparr>coef = [0, 0, 0, 0, 0, 0], intercept = 1 / 1000\<rparr>,
                     is_trained = True\<rparr> 0 0 usec_per_hour = Inr [(0, 1 / 1000)]
   \<and> (\<exists>r. predict \<lparr>model = Some \<lparr>coef = [0, 0, 0, 0, 0, 0], intercept = 1 / 1000\<rparr>,
                      is_trained = True\<rparr> 0 = Inr r
           \<and> predicted_energy_kwh r = round2 (1 / 1000)
           \<and> \<bar>predicted_energy_kwh r - 1 / 1000\<bar> \<le> 1 / 200)
   \<and> round2 (1 / 1000) = 0"
proof -
  let ?M = "\<lparr>coef = [0, 0, 0, 0, 0, 0], intercept = 1 / 1000\<rparr>"
  let ?P = "\<lparr>model = Some ?M, is_trained = True\<rparr>"
  have a: "is_trained ?P" "model ?P = Some ?M" by simp_all
  have r: "predict_range ?P 0 0 usec_per_hour = Inr [(0, 1 / 1000)]"
    by (simp add: predict_range_def date_range_def features_epoch model_predict_def
        usec_per_hour_def)
  have z: "round2 (1 / 1000) = 0"
    by (simp add: round2_def round_half_even_def)
  from predict_rounds_range_does_not [OF a, of 0 0 0 usec_per_hour] r
  have "\<exists>r. predict ?P 0 = Inr r \<and> predicted_energy_kwh r = round2 (1 / 1000)
           \<and> \<bar>predicted_energy_kwh r - 1 / 1000\<bar> \<le> 1 / 200"
    by simp
  with a r z show ?thesis by simp
qed

text \<open>
  C8 (amended). On a trained forecaster \<open>predict_range\<close> fails exactly when the step is
  zero, or the step is positive and \<open>end\<close> is earlier than \<open>start\<close>, or the step is
  negative and \<open>end\<close> is later than \<open>start\<close>. With a negative step and \<open>end\<close>
  not later than \<open>start\<close> it returns one row per timestamp \<open>start + i * step\<close>,
  \<open>i = 0, 1, \<dots>, k\<close>, each with its clamped prediction, where \<open>start + k * step\<close>
  is the last such timestamp not earlier than \<open>end\<close>.
\<close>

theorem predict_range_failures:
  assumes "is_trained p" "model p = Some m"
  shows "(isl (predict_range p s e f) \<longleftrightarrow> (f = 0 \<or> (0 < f \<and> e < s) \<or> (f < 0 \<and> s < e)))
         \<and> (f < 0 \<and> e \<le> s \<longrightarrow>
              predict_range p s e f
                = Inr (map (\<lambda>i. (s + i * f,
                                  max (model_predict m (extract_time_features (s + i * f))) 0))
                           [0..(e - s) div f])
              \<and> 0 \<le> (e - s) div f
              \<and> e \<le> s + (e - s) div f * f
              \<and> s + ((e - s) div f + 1) * f < e)"
proof -
  have fail: "isl (predict_range p s e f) \<longleftrightarrow> (f = 0 \<or> (0 < f \<and> e < s) \<or> (f < 0 \<and> s < e))"
  proof -
    consider "f = 0" | "0 < f" | "f < 0" by linarith
    then show ?thesis
    proof cases
      case 1
      then show ?thesis by (simp add: predict_range_trained [OF assms])
    next
      case 2
      then have "((e - s) div f < 0) = (e < s)" by (simp add: pos_imp_zdiv_neg_iff)
      with 2 show ?thesis by (simp add: predict_range_trained [OF assms])
    next
      case 3
      then have "((e - s) div f < 0) = (s < e)" by (simp add: neg_imp_zdiv_neg_iff)
      with 3 show ?thesis by (simp add: predict_range_trained [OF assms])
    qed
  qed
  have desc: "predict_range p s e f
                = Inr (map (\<lambda>i. (s + i * f,
                                  max (model_predict m (extract_time_features (s + i * f))) 0))
                           [0..(e - s) div f])
              \<and> 0 \<le> (e - s) div f
              \<and> e \<le> s + (e - s) div f * f
              \<and> s + ((e - s) div f + 1) * f < e"
    if h: "f < 0 \<and> e \<le> s"
  proof -
    from h have k: "0 \<le> (e - s) div f" by (simp add: neg_imp_zdiv_nonneg_iff)
    have v: "predict_range p s e f
                = Inr (map (\<lambda>i. (s + i * f,
                                  max (model_predict m (extract_time_features (s + i * f))) 0))
                           [0..(e - s) div f])"
      using h k by (simp add: predict_range_trained [OF assms] comp_def)
    have d: "e - s = (e - s) div f * f + (e - s) mod f" by simp
    have m1: "(e - s) mod f \<le> 0" using h by (simp add: neg_mod_sign)
    have m2: "f < (e - s) mod f" using h by (simp add: neg_mod_bound)
    have b1: "e \<le> s + (e - s) div f * f" using d m1 by linarith
    have "s + ((e - s) div f + 1) * f = s + (e - s) div f * f + f" by (simp add: algebra_simps)
    then have b2: "s + ((e - s) div f + 1) * f < e" using d m2 by linarith
    from v k b1 b2 show ?thesis by (intro conjI)
  qed
  from fail desc show ?thesis by blast
qed

theorem predict_range_failures_witness:
  "is_trained \<lparr>model = Some \<lparr>coef = [0, 0, 0, 0, 0, 0], intercept = 0\<rparr>, is_trained = True\<rparr>
   \<and> isl (predict_range \<lparr>model = Some \<lparr>coef = [0, 0, 0, 0, 0, 0], intercept = 0\<rparr>,
                          is_trained = True\<rparr> 3600000000 0 3600000000)
   \<and> isl (predict_range \<lparr>model = Some \<lparr>coef = [0, 0, 0, 0, 0, 0], intercept = 0\<rparr>,
                          is_trained = True\<rparr> 0 3600000000 0)
   \<and> isl (predict_range \<lparr>model = Some \<lparr>coef = [0, 0, 0, 0, 0, 0], intercept = 0\<rparr>,
                          is_trained = True\<rparr> 0 3600000000 (- 3600000000))
   \<and> (- 3600000000 :: int) < 0 \<and> (0 :: int) \<le> 3600000000
   \<and> predict_range \<lparr>model = Some \<lparr>coef = [0, 0, 0, 0, 0, 0], intercept = 0\<rparr>,
                     is_trained = True\<rparr> 3600000000 0 (- 3600000000)
       = Inr (map (\<lambda>i. (3600000000 + i * - 3600000000,
                         max (model_predict \<lparr>coef = [0, 0, 0, 0, 0, 0], intercept = 0\<rparr>
                                (extract_time_features (3600000000 + i * - 3600000000))) 0))
                  [0..1])"
proof -
  let ?M = "\<lparr>coef = [0, 0, 0, 0, 0, 0], intercept = 0\<rparr>"
  let ?P = "\<lparr>model = Some ?M, is_trained = True\<rparr>"
  have a: "is_trained ?P" "model ?P = Some ?M" by simp_all
  have k: "(0 - 3600000000) div (- 3600000000 :: int) = 1" by simp
  show ?thesis
    using predict_range_failures [OF a, of 3600000000 0 3600000000]
      predict_range_failures [OF a, of 0 3600000000 0]
      predict_range_failures [OF a, of 0 3600000000 "- 3600000000"]
      predict_range_failures [OF a, of 3600000000 0 "- 3600000000"]
    by (simp add: k)
qed

text \<open>
  The claim as stated fails: with \<open>end\<close> one hour before \<open>start\<close> and a step of minus
  one hour the trained forecaster returns two rows.
\<close>

theorem predict_range_descending_counterexample:
  "is_trained \<lparr>model = Some \<lparr>coef = [0, 0, 0, 0, 0, 0], intercept = 0\<rparr>, is_trained = True\<rparr>
   \<and> (0 :: int) < 3600000000 \<and> (- 3600000000 :: int) \<le> 0
   \<and> predict_range \<lparr>model = Some \<lparr>coef = [0, 0, 0, 0, 0, 0], intercept = 0\<rparr>,
                     is_trained = True\<rparr> 3600000000 0 (- 3600000000)
       = Inr [(3600000000, 0), (0, 0)]"
proof -
  have u: "[0..(1::int)] = [0, 1]" by code_simp
  show ?thesis
    by (simp add: predict_range_def date_range_def features_epoch features_sample
        model_predict_def u)
qed

section \<open>Peak threshold\<close>

lemma interp_mono:
  fixes s :: "real list"
  assumes srt: "sorted s" and ne: "s \<noteq> []"
    and h0: "0 \<le> h1" and h12: "h1 \<le> h2" and hn: "h2 \<le> real (length s - 1)"
  shows "s ! nat \<lfloor>h1\<rfloor>
           + (s ! min (nat \<lfloor>h1\<rfloor> + 1) (length s - 1) - s ! nat \<lfloor>h1\<rfloor>) * (h1 - real (nat \<lfloor>h1\<rfloor>))
         \<le> s ! nat \<lfloor>h2\<rfloor>
           + (s ! min (nat \<lfloor>h2\<rfloor> + 1) (length s - 1) - s ! nat \<lfloor>h2\<rfloor>) * (h2 - real (nat \<lfloor>h2\<rfloor>))"
proof -
  let ?n = "length s"
  let ?l1 = "nat \<lfloor>h1\<rfloor>" and ?l2 = "nat \<lfloor>h2\<rfloor>"
  let ?f1 = "h1 - real ?l1" and ?f2 = "h2 - real ?l2"
  have npos: "0 < ?n" using ne by simp
  have l12: "?l1 \<le> ?l2" using h12 by (simp add: floor_mono nat_mono)
  have "\<lfloor>h2\<rfloor> \<le> int (?n - 1)" using hn by (simp add: floor_le_iff)
  then have l2n: "?l2 \<le> ?n - 1" by linarith
  have r1: "real ?l1 = of_int \<lfloor>h1\<rfloor>" using h0 by simp
  have r2: "real ?l2 = of_int \<lfloor>h2\<rfloor>" using h0 h12 by simp
  have f1: "0 \<le> ?f1" "?f1 \<le> 1" unfolding r1 by linarith+
  have f2: "0 \<le> ?f2" unfolding r2 by linarith
  have m2: "?l2 \<le> min (?l2 + 1) (?n - 1)" "min (?l2 + 1) (?n - 1) < ?n"
    using l2n npos by linarith+
  have m1: "?l1 \<le> min (?l1 + 1) (?n - 1)" "min (?l1 + 1) (?n - 1) < ?n"
    using l12 l2n npos by linarith+
  have up2: "s ! ?l2 \<le> s ! min (?l2 + 1) (?n - 1)"
    by (rule sorted_nth_mono [OF srt m2])
  have up1: "s ! ?l1 \<le> s ! min (?l1 + 1) (?n - 1)"
    by (rule sorted_nth_mono [OF srt m1])
  show ?thesis
  proof (cases "?l1 = ?l2")
    case True
    have "?f1 \<le> ?f2" using h12 True by simp
    then have "(s ! min (?l1 + 1) (?n - 1) - s ! ?l1) * ?f1
               \<le> (s ! min (?l1 + 1) (?n - 1) - s ! ?l1) * ?f2"
      using up1 by (intro mult_left_mono) auto
    then show ?thesis using True by simp
  next
    case False
    with l12 have lt: "?l1 + 1 \<le> ?l2" by linarith
    then have m: "min (?l1 + 1) (?n - 1) = ?l1 + 1" using l2n by simp
    have "(s ! (?l1 + 1) - s ! ?l1) * ?f1 \<le> (s ! (?l1 + 1) - s ! ?l1) * 1"
      using up1 f1 unfolding m by (intro mult_left_mono) auto
    then have a: "s ! ?l1 + (s ! (?l1 + 1) - s ! ?l1) * ?f1 \<le> s ! (?l1 + 1)" by simp
    have "?l2 < ?n" using l2n npos by linarith
    then have b: "s ! (?l1 + 1) \<le> s ! ?l2"
      by (rule sorted_nth_mono [OF srt lt])
    have "0 \<le> (s ! min (?l2 + 1) (?n - 1) - s ! ?l2) * ?f2"
      using up2 f2 by (intro mult_nonneg_nonneg) auto
    with a b show ?thesis unfolding m by linarith
  qed
qed

lemma quantile_in_range:
  assumes "xs \<noteq> []" "0 \<le> q" "q \<le> 1"
  shows "quantile xs q =
           Inr (Some (sort xs ! nat \<lfloor>q * real (length xs - 1)\<rfloor>
              + (sort xs ! min (nat \<lfloor>q * real (length xs - 1)\<rfloor> + 1) (length xs - 1)
                 - sort xs ! nat \<lfloor>q * real (length xs - 1)\<rfloor>)
                * (q * real (length xs - 1) - real (nat \<lfloor>q * real (length xs - 1)\<rfloor>))))"
  using assms by (simp add: quantile_def Let_def)

lemma quantile_mono:
  assumes ne: "xs \<noteq> []" and q: "0 \<le> q1" "q1 \<le> q2" "q2 \<le> 1"
  shows "\<exists>t1 t2. quantile xs q1 = Inr (Some t1) \<and> quantile xs q2 = Inr (Some t2) \<and> t1 \<le> t2"
proof -
  have a: "0 \<le> q1 * real (length xs - 1)" using q by simp
  have b: "q1 * real (length xs - 1) \<le> q2 * real (length xs - 1)"
    using q by (intro mult_right_mono) auto
  have c: "q2 * real (length xs - 1) \<le> real (length (sort xs) - 1)"
    using q mult_right_mono [of q2 1 "real (length xs - 1)"] by simp
  have ne': "sort xs \<noteq> []" using ne by (metis length_sort length_0_conv)
  from interp_mono [OF sorted_sort ne' a b c] q
  show ?thesis
    by (simp add: quantile_in_range [OF ne])
qed

lemma quantile_zero:
  assumes "xs \<noteq> []"
  shows "quantile xs 0 = Inr (Some (Min (set xs)))"
proof -
  have ne': "sort xs \<noteq> []" using assms by (metis length_sort length_0_conv)
  have "sort xs ! 0 = Min (set xs)"
  proof (rule Min_eqI [symmetric])
    show "finite (set xs)" by simp
    show "sort xs ! 0 \<in> set xs" using ne' by (metis nth_mem length_greater_0_conv set_sort)
    fix y assume "y \<in> set xs"
    then have "y \<in> set (sort xs)" by simp
    then obtain i where "i < length (sort xs)" "sort xs ! i = y" by (metis in_set_conv_nth)
    then show "sort xs ! 0 \<le> y" using sorted_nth_mono [OF sorted_sort, of 0 i xs] by auto
  qed
  then show ?thesis using assms by (simp add: quantile_def Let_def)
qed

lemma quantile_one:
  assumes "xs \<noteq> []"
  shows "quantile xs 1 = Inr (Some (Max (set xs)))"
proof -
  have ne': "sort xs \<noteq> []" using assms by (metis length_sort length_0_conv)
  let ?k = "length xs - 1"
  have k: "?k < length (sort xs)" using assms by simp
  have "sort xs ! ?k = Max (set xs)"
  proof (rule Max_eqI [symmetric])
    show "finite (set xs)" by simp
    show "sort xs ! ?k \<in> set xs" using k by (metis nth_mem set_sort)
    fix y assume "y \<in> set xs"
    then have "y \<in> set (sort xs)" by simp
    then obtain i where "i < length (sort xs)" "sort xs ! i = y" by (metis in_set_conv_nth)
    then show "y \<le> sort xs ! ?k" using sorted_nth_mono [OF sorted_sort, of i ?k xs] by auto
  qed
  then show ?thesis using assms by (simp add: quantile_def Let_def)
qed

lemma identify_peak_threshold:
  assumes "df \<noteq> []" "quantile (map pc df) (p / 100) = Inr (Some t)"
  shows "\<exists>s. identify_peak_periods df pc p = Inr s \<and> peak_threshold s = Some t"
  using assms by (simp add: identify_peak_periods_def Let_def)

text \<open>
  C4. For a non-empty reading set the threshold of \<open>identify_peak_periods\<close>, the
  linearly interpolated quantile at rank \<open>percentile / 100 * (n - 1)\<close> of the sorted power
  series, does not decrease when the percentile grows within 0..100; percentile 0 gives
  the minimum and percentile 100 the maximum of the power series.
\<close>

theorem peak_threshold_monotone:
  assumes "df \<noteq> []" "0 \<le> p1" "p1 \<le> p2" "p2 \<le> 100"
  shows "(\<exists>s1 s2 t1 t2. identify_peak_periods df pc p1 = Inr s1 \<and> peak_threshold s1 = Some t1
            \<and> identify_peak_periods df pc p2 = Inr s2 \<and> peak_threshold s2 = Some t2
            \<and> t1 \<le> t2)
         \<and> (\<exists>s. identify_peak_periods df pc 0 = Inr s
                \<and> peak_threshold s = Some (Min (set (map pc df))))
         \<and> (\<exists>s. identify_peak_periods df pc 100 = Inr s
                \<and> peak_threshold s = Some (Max (set (map pc df))))"
proof -
  have ne: "map pc df \<noteq> []" using assms(1) by simp
  have "0 \<le> p1 / 100" "p1 / 100 \<le> p2 / 100" "p2 / 100 \<le> 1" using assms by simp_all
  from quantile_mono [OF ne this] obtain t1 t2 where
    t: "quantile (map pc df) (p1 / 100) = Inr (Some t1)"
       "quantile (map pc df) (p2 / 100) = Inr (Some t2)" "t1 \<le> t2" by blast
  from identify_peak_threshold [OF assms(1) t(1)] identify_peak_threshold [OF assms(1) t(2)] t(3)
  have 1: "\<exists>s1 s2 t1 t2. identify_peak_periods df pc p1 = Inr s1 \<and> peak_threshold s1 = Some t1
            \<and> identify_peak_periods df pc p2 = Inr s2 \<and> peak_threshold s2 = Some t2
            \<and> t1 \<le> t2" by blast
  have 2: "\<exists>s. identify_peak_periods df pc 0 = Inr s
                \<and> peak_threshold s = Some (Min (set (map pc df)))"
    using identify_peak_threshold [OF assms(1), of pc 0] quantile_zero [OF ne] by simp
  have 3: "\<exists>s. identify_peak_periods df pc 100 = Inr s
                \<and> peak_threshold s = Some (Max (set (map pc df)))"
    using identify_peak_threshold [OF assms(1), of pc 100] quantile_one [OF ne] by simp
  from 1 2 3 show ?thesis by blast
qed

lemma quantile_sample:
  "quantile [30, 10, 40, 20] (25 / 100) = Inr (Some (35 / 2))"
  "quantile [30, 10, 40, 20] (75 / 100) = Inr (Some (65 / 2))"
  by (simp_all add: quantile_def Let_def)

theorem peak_threshold_monotone_witness:
  "[30, 10, 40, 20 :: real] \<noteq> [] \<and> (0 :: real) \<le> 25 \<and> (25 :: real) \<le> 75 \<and> (75 :: real) \<le> 100
   \<and> (\<exists>s1 s2 t1 t2.
         identify_peak_periods [30, 10, 40, 20] (\<lambda>x. x) 25 = Inr s1 \<and> peak_threshold s1 = Some t1
         \<and> identify_peak_periods [30, 10, 40, 20] (\<lambda>x. x) 75 = Inr s2 \<and> peak_threshold s2 = Some t2
         \<and> t1 \<le> t2)
   \<and> quantile [30, 10, 40, 20] (25 / 100) = Inr (Some (35 / 2))
   \<and> quantile [30, 10, 40, 20] (75 / 100) = Inr (Some (65 / 2))"
proof -
  have h: "[30, 10, 40, 20 :: real] \<noteq> []" "(0 :: real) \<le> 25" "(25 :: real) \<le> 75"
    "(75 :: real) \<le> 100" by simp_all
  from peak_threshold_monotone [OF h, of "\<lambda>x. x"]
  have "\<exists>s1 s2 t1 t2.
         identify_peak_periods [30, 10, 40, 20] (\<lambda>x. x) 25 = Inr s1 \<and> peak_threshold s1 = Some t1
         \<and> identify_peak_periods [30, 10, 40, 20] (\<lambda>x. x) 75 = Inr s2 \<and> peak_threshold s2 = Some t2
         \<and> t1 \<le> t2" by blast
  with quantile_sample show ?thesis by simp
qed

section \<open>Spike detection\<close>

lemma spike_rolling:
  "rolling_mean 3 [10, 11, 12, 11, 10, 50, 11, 10, 9]
     = [10, 21 / 2, 11, 34 / 3, 11, 71 / 3, 71 / 3, 71 / 3, 10]"
  by code_simp

lemma spike_variance:
  "variance [0, 1 / 2, 1, - (1 / 3), - 1, 79 / 3, - (38 / 3), - (41 / 3), - 1] = 10570 / 81"
  by (simp add: variance_def Let_def power2_eq_square)

lemma length_rolling_mean: "length (rolling_mean w xs) = length xs"
  by (simp add: rolling_mean_def)

lemma detect_columns:
  assumes "0 < w"
  shows "\<exists>rows. detect_abnormal_spikes df pc w t = Inr rows
           \<and> map row rows = df
           \<and> map rolling_avg rows = rolling_mean (nat w) (map pc df)
           \<and> map deviation rows
               = map (\<lambda>(p, a). p - a) (zip (map pc df) (rolling_mean (nat w) (map pc df)))
           \<and> map is_anomaly rows
               = map (\<lambda>d. gt_nan d t (std (map deviation rows))) (map deviation rows)"
proof -
  let ?power = "map pc df"
  let ?avgs = "rolling_mean (nat w) ?power"
  let ?devs = "map (\<lambda>(p, a). p - a) (zip ?power ?avgs)"
  let ?rows = "map (\<lambda>(r, a, d). \<lparr>row = r, rolling_avg = a, deviation = d,
                                   is_anomaly = gt_nan d t (std ?devs)\<rparr>)
                   (zip df (zip ?avgs ?devs))"
  have la: "length ?avgs = length df" by (simp add: length_rolling_mean)
  have ld: "length ?devs = length df" by (simp add: length_rolling_mean)
  have lz: "length (zip ?avgs ?devs) = length df" using la ld by simp
  have d: "detect_abnormal_spikes df pc w t = Inr ?rows"
    using assms by (simp add: detect_abnormal_spikes_def Let_def)
  have r1: "map row ?rows = map fst (zip df (zip ?avgs ?devs))"
    by (simp add: case_prod_beta comp_def)
  have r2: "map rolling_avg ?rows = map fst (map snd (zip df (zip ?avgs ?devs)))"
    by (simp add: case_prod_beta comp_def)
  have r3: "map deviation ?rows = map snd (map snd (zip df (zip ?avgs ?devs)))"
    by (simp add: case_prod_beta comp_def)
  have s: "map snd (zip df (zip ?avgs ?devs)) = zip ?avgs ?devs"
    using lz by (intro map_snd_zip) simp
  have c1: "map row ?rows = df"
    unfolding r1 using lz by (intro map_fst_zip) simp
  have c2: "map rolling_avg ?rows = ?avgs"
    unfolding r2 s using la ld by (intro map_fst_zip) simp
  have c3: "map deviation ?rows = ?devs"
    unfolding r3 s using la ld by (intro map_snd_zip) simp
  have "map is_anomaly ?rows
        = map (\<lambda>x. gt_nan (snd (snd x)) t (std ?devs)) (zip df (zip ?avgs ?devs))"
    by (simp add: case_prod_beta comp_def)
  also have "\<dots> = map (\<lambda>d. gt_nan d t (std ?devs)) (map snd (map snd (zip df (zip ?avgs ?devs))))"
    by (simp add: comp_def)
  also have "map snd (map snd (zip df (zip ?avgs ?devs))) = ?devs"
    using c3 unfolding r3 .
  finally have "map is_anomaly ?rows = map (\<lambda>d. gt_nan d t (std ?devs)) ?devs" .
  then have c4: "map is_anomaly ?rows
      = map (\<lambda>d. gt_nan d t (std (map deviation ?rows))) (map deviation ?rows)"
    by (simp only: c3)
  from d c1 c2 c3 c4 show ?thesis by blast
qed

lemma sqrt_spike: "2 * sqrt (10570 / 81) < 79 / 3" "1 < 2 * sqrt (10570 / 81)"
proof -
  have "sqrt (10570 / 81) < 12"
    by (rule real_less_lsqrt) simp_all
  then show "2 * sqrt (10570 / 81) < 79 / 3" by simp
  have "1 \<le> sqrt (10570 / 81)"
    by (rule real_le_rsqrt) simp
  then show "1 < 2 * sqrt (10570 / 81)" by linarith
qed

text \<open>
  C5. On the power series 10, 11, 12, 11, 10, 50, 11, 10, 9 with a window of 3 and a
  deviation threshold of 2.0, \<open>detect_abnormal_spikes\<close> flags the row holding 50 and no
  other row.
\<close>

theorem spike_scenario:
  "\<exists>rows. detect_abnormal_spikes [10, 11, 12, 11, 10, 50, 11, 10, 9] (\<lambda>p. p) 3 2 = Inr rows
      \<and> map row rows = [10, 11, 12, 11, 10, 50, 11, 10, 9]
      \<and> map is_anomaly rows = [False, False, False, False, False, True, False, False, False]"
proof -
  let ?df = "[10, 11, 12, 11, 10, 50, 11, 10, 9] :: real list"
  have "0 < (3 :: int)" by simp
  from detect_columns [OF this, of ?df "\<lambda>p. p" 2] show ?thesis
  proof (elim exE conjE, goal_cases)
    case (1 rows)
    have dv: "map deviation rows
        = [0, 1 / 2, 1, - (1 / 3), - 1, 79 / 3, - (38 / 3), - (41 / 3), - 1]"
      unfolding 1(4) by (simp add: spike_rolling)
    have sd: "std (map deviation rows) = Some (sqrt (10570 / 81))"
      unfolding dv by (simp add: std_def spike_variance)
    have an: "map is_anomaly rows
        = [False, False, False, False, False, True, False, False, False]"
      unfolding 1(5) sd unfolding dv using sqrt_spike by (simp add: gt_nan_def)
    show ?case
      by (rule exI [of _ rows]) (simp only: 1(1) 1(2) an simp_thms)
  qed
qed

lemma sum_list_all_equal:
  fixes ys :: "real list"
  assumes "\<forall>x\<in>set ys. x = c"
  shows "sum_list ys = c * real (length ys)"
  using assms by (induction ys) (auto simp: algebra_simps)

lemma rolling_window_nonempty:
  assumes "i < length xs" "0 < w"
  shows "rolling_window w xs i \<noteq> []"
  using assms by (simp add: rolling_window_def)

lemma rolling_window_subset: "set (rolling_window w xs i) \<subseteq> set xs"
  unfolding rolling_window_def
  by (meson set_drop_subset set_take_subset subset_trans)

lemma rolling_window_first:
  assumes "xs \<noteq> []" "0 < w"
  shows "rolling_window w xs 0 = [xs ! 0]"
  using assms by (cases xs) (simp_all add: rolling_window_def)

lemma rolling_window_one:
  assumes "i < length xs"
  shows "rolling_window (Suc 0) xs i = [xs ! i]"
  using assms by (simp add: rolling_window_def take_Suc_conv_app_nth)

lemma deviation_nth:
  assumes "i < length xs"
  shows "map (\<lambda>(p, a). p - a) (zip xs (rolling_mean w xs)) ! i
         = xs ! i - sum_list (rolling_window w xs i) / real (length (rolling_window w xs i))"
  using assms by (simp add: length_rolling_mean) (simp add: rolling_mean_def)

lemma deviation_first_zero:
  assumes "xs \<noteq> []" "0 < w"
  shows "map (\<lambda>(p, a). p - a) (zip xs (rolling_mean w xs)) ! 0 = 0"
proof -
  have "0 < length xs" using assms(1) by simp
  from deviation_nth [OF this, of w] show ?thesis
    by (simp add: rolling_window_first [OF assms])
qed

lemma deviation_zero_if:
  assumes "\<And>i. i < length xs \<Longrightarrow>
             sum_list (rolling_window w xs i) / real (length (rolling_window w xs i)) = xs ! i"
  shows "\<forall>d\<in>set (map (\<lambda>(p, a). p - a) (zip xs (rolling_mean w xs))). d = 0"
proof
  fix d assume "d \<in> set (map (\<lambda>(p, a). p - a) (zip xs (rolling_mean w xs)))"
  then obtain i where i: "i < length (map (\<lambda>(p, a). p - a) (zip xs (rolling_mean w xs)))"
    and d: "map (\<lambda>(p, a). p - a) (zip xs (rolling_mean w xs)) ! i = d"
    by (metis in_set_conv_nth)
  from i have "i < length xs" by (simp add: length_rolling_mean)
  from deviation_nth [OF this, of w] assms [OF this] d show "d = 0" by simp
qed

lemma deviation_window_one:
  "\<forall>d\<in>set (map (\<lambda>(p, a). p - a) (zip xs (rolling_mean 1 xs))). d = 0"
proof (rule deviation_zero_if)
  fix i assume "i < length xs"
  then show "sum_list (rolling_window 1 xs i) / real (length (rolling_window 1 xs i)) = xs ! i"
    by (simp add: rolling_window_one)
qed

lemma deviation_constant:
  assumes "\<forall>x\<in>set xs. x = c" "0 < w"
  shows "\<forall>d\<in>set (map (\<lambda>(p, a). p - a) (zip xs (rolling_mean w xs))). d = 0"
proof (rule deviation_zero_if)
  fix i assume i: "i < length xs"
  let ?win = "rolling_window w xs i"
  have ne: "?win \<noteq> []" by (rule rolling_window_nonempty [OF i assms(2)])
  have "\<forall>x\<in>set ?win. x = c" using assms(1) rolling_window_subset by blast
  then have "sum_list ?win = c * real (length ?win)" by (rule sum_list_all_equal)
  moreover have "xs ! i = c" using assms(1) i by simp
  ultimately show "sum_list ?win / real (length ?win) = xs ! i" using ne by simp
qed

lemma variance_zero_all_mean:
  assumes "2 \<le> length ds" "variance ds = 0"
  shows "\<forall>d\<in>set ds. d = sum_list ds / real (length ds)"
proof -
  let ?m = "sum_list ds / real (length ds)"
  let ?sq = "map (\<lambda>x. (x - ?m)\<^sup>2) ds"
  have "real (length ds - 1) \<noteq> 0" using assms(1) by simp
  with assms(2) have z: "sum_list ?sq = 0"
    by (simp add: variance_def Let_def)
  have nn: "\<And>y. y \<in> set ?sq \<Longrightarrow> 0 \<le> y" by auto
  from z sum_list_nonneg_eq_0_iff [of ?sq, OF nn]
  have all0: "\<forall>y\<in>set ?sq. y = 0" by blast
  show ?thesis
  proof
    fix d assume "d \<in> set ds"
    then have "(d - ?m)\<^sup>2 \<in> set ?sq" by auto
    with all0 have "(d - ?m)\<^sup>2 = 0" by blast
    then show "d = ?m" by simp
  qed
qed

lemma zeros_not_flagged:
  assumes "\<forall>d\<in>set ds. d = 0"
  shows "\<forall>d\<in>set ds. \<not> gt_nan d t (std ds)"
proof -
  have s: "sum_list ds = 0" using sum_list_all_equal [OF assms] by simp
  have "\<forall>y\<in>set (map (\<lambda>x. (x - 0)\<^sup>2) ds). y = 0" using assms by auto
  from sum_list_all_equal [OF this] have "sum_list (map (\<lambda>x. (x - 0)\<^sup>2) ds) = 0" by simp
  then have "variance ds = 0" by (simp add: variance_def Let_def s)
  then show ?thesis using assms by (auto simp: std_def gt_nan_def)
qed

lemma zero_std_all_zero:
  assumes "ds \<noteq> []" "ds ! 0 = 0" "std ds = Some 0"
  shows "\<forall>d\<in>set ds. d = 0"
proof -
  from assms(3) have l: "2 \<le> length ds" and v: "sqrt (variance ds) = 0"
    by (auto simp: std_def split: if_splits)
  from v have "variance ds = 0" by simp
  from variance_zero_all_mean [OF l this]
  have m: "\<forall>d\<in>set ds. d = sum_list ds / real (length ds)" .
  have "ds ! 0 \<in> set ds" using assms(1) by simp
  with m assms(2) have "sum_list ds / real (length ds) = 0" by metis
  with m show ?thesis by simp
qed

lemma detect_pointwise:
  assumes "0 < w"
  shows "\<exists>rows. detect_abnormal_spikes df pc w t = Inr rows
           \<and> map row rows = df
           \<and> map deviation rows
               = map (\<lambda>(p, a). p - a) (zip (map pc df) (rolling_mean (nat w) (map pc df)))
           \<and> (\<forall>r\<in>set rows. is_anomaly r = gt_nan (deviation r) t (std (map deviation rows)))"
  using detect_columns [OF assms, of df pc t]
proof (elim exE conjE, goal_cases)
  case (1 rows)
  from 1(5) have "map is_anomaly rows
      = map (\<lambda>r. gt_nan (deviation r) t (std (map deviation rows))) rows"
    by (simp add: comp_def)
  then have "\<forall>r\<in>set rows. is_anomaly r = gt_nan (deviation r) t (std (map deviation rows))"
    by (simp only: map_eq_conv)
  with 1(1) 1(2) 1(4) show ?case
    by (intro exI [of _ rows] conjI)
qed

lemma zero_deviation_rows:
  assumes "0 < w"
    and "\<forall>d\<in>set (map (\<lambda>(p, a). p - a) (zip (map pc df) (rolling_mean (nat w) (map pc df)))). d = 0"
  shows "\<exists>rows. detect_abnormal_spikes df pc w t = Inr rows \<and> map row rows = df
           \<and> list_all (\<lambda>r. deviation r = 0 \<and> \<not> is_anomaly r) rows"
  using detect_pointwise [OF assms(1), of df pc t]
proof (elim exE conjE, goal_cases)
  case (1 rows)
  from assms(2) 1(3) have z: "\<forall>d\<in>set (map deviation rows). d = 0" by simp
  from zeros_not_flagged [OF z, of t]
  have nf: "\<forall>d\<in>set (map deviation rows). \<not> gt_nan d t (std (map deviation rows))" .
  have "list_all (\<lambda>r. deviation r = 0 \<and> \<not> is_anomaly r) rows"
    unfolding list_all_iff
  proof
    fix r assume r: "r \<in> set rows"
    then have "deviation r \<in> set (map deviation rows)" by simp
    with z nf 1(4) r show "deviation r = 0 \<and> \<not> is_anomaly r" by blast
  qed
  with 1(1) 1(2) show ?case by (intro exI [of _ rows] conjI)
qed

lemma zero_std_rows:
  assumes d: "detect_abnormal_spikes df pc w t = Inr rows"
    and s: "std (map deviation rows) = Some 0 \<or> std (map deviation rows) = None"
  shows "list_all (\<lambda>r. \<not> is_anomaly r) rows"
proof -
  have w: "0 < w" using d by (auto simp: detect_abnormal_spikes_def split: if_splits)
  from detect_pointwise [OF w, of df pc t] d
  have dv: "map deviation rows
      = map (\<lambda>(p, a). p - a) (zip (map pc df) (rolling_mean (nat w) (map pc df)))"
    and an: "\<forall>r\<in>set rows. is_anomaly r = gt_nan (deviation r) t (std (map deviation rows))"
    by auto
  from s show ?thesis
  proof
    assume "std (map deviation rows) = None"
    with an show ?thesis by (simp add: list_all_iff gt_nan_def)
  next
    assume s0: "std (map deviation rows) = Some 0"
    then have l: "2 \<le> length (map deviation rows)" by (auto simp: std_def split: if_splits)
    then have ne: "map deviation rows \<noteq> []" by auto
    have "length (map deviation rows) = length df"
      unfolding dv by (simp add: length_rolling_mean)
    with l have pne: "map pc df \<noteq> []" by auto
    have "0 < nat w" using w by simp
    from deviation_first_zero [OF pne this] have "map deviation rows ! 0 = 0"
      unfolding dv .
    from zero_std_all_zero [OF ne this s0] have z: "\<forall>d\<in>set (map deviation rows). d = 0" .
    from zeros_not_flagged [OF z, of t]
    have nf: "\<forall>d\<in>set (map deviation rows). \<not> gt_nan d t (std (map deviation rows))" .
    show ?thesis
      unfolding list_all_iff
    proof
      fix r assume r: "r \<in> set rows"
      then have "deviation r \<in> set (map deviation rows)" by simp
      with nf an r show "\<not> is_anomaly r" by blast
    qed
  qed
qed

text \<open>
  C6. Whenever the deviation series has a zero (or, below two rows, undefined) standard
  deviation no row is flagged, whatever the threshold. In particular a window of 1 makes
  every deviation 0 and flags nothing, and so does a constant power series with any
  window of 1 or more.
\<close>

theorem zero_variance_no_anomaly:
  "(\<forall>rows. detect_abnormal_spikes df pc w t = Inr rows
            \<and> (std (map deviation rows) = Some 0 \<or> std (map deviation rows) = None)
          \<longrightarrow> list_all (\<lambda>r. \<not> is_anomaly r) rows)
   \<and> (\<exists>rows. detect_abnormal_spikes df pc 1 t = Inr rows \<and> map row rows = df
          \<and> list_all (\<lambda>r. deviation r = 0 \<and> \<not> is_anomaly r) rows)
   \<and> (0 < w \<and> (\<forall>r\<in>set df. pc r = c)
        \<longrightarrow> (\<exists>rows. detect_abnormal_spikes df pc w t = Inr rows \<and> map row rows = df
               \<and> list_all (\<lambda>r. deviation r = 0 \<and> \<not> is_anomaly r) rows))"
proof (intro conjI allI impI)
  fix rows
  assume "detect_abnormal_spikes df pc w t = Inr rows
          \<and> (std (map deviation rows) = Some 0 \<or> std (map deviation rows) = None)"
  then show "list_all (\<lambda>r. \<not> is_anomaly r) rows"
    using zero_std_rows by blast
next
  have "0 < (1 :: int)" by simp
  moreover have "\<forall>d\<in>set (map (\<lambda>(p, a). p - a)
                       (zip (map pc df) (rolling_mean (nat 1) (map pc df)))). d = 0"
    using deviation_window_one [of "map pc df"] by simp
  ultimately show "\<exists>rows. detect_abnormal_spikes df pc 1 t = Inr rows \<and> map row rows = df
          \<and> list_all (\<lambda>r. deviation r = 0 \<and> \<not> is_anomaly r) rows"
    by (rule zero_deviation_rows)
next
  assume h: "0 < w \<and> (\<forall>r\<in>set df. pc r = c)"
  then have "\<forall>x\<in>set (map pc df). x = c" by simp
  moreover have "0 < nat w" using h by simp
  ultimately have "\<forall>d\<in>set (map (\<lambda>(p, a). p - a)
                       (zip (map pc df) (rolling_mean (nat w) (map pc df)))). d = 0"
    by (rule deviation_constant)
  with h show "\<exists>rows. detect_abnormal_spikes df pc w t = Inr rows \<and> map row rows = df
               \<and> list_all (\<lambda>r. deviation r = 0 \<and> \<not> is_anomaly r) rows"
    using zero_deviation_rows by blast
qed

lemma constant_eval:
  "detect_abnormal_spikes [5, 5, 5] (\<lambda>p. p) 3 2
     = Inr [\<lparr>row = 5, rolling_avg = 5, deviation = 0, is_anomaly = False\<rparr>,
            \<lparr>row = 5, rolling_avg = 5, deviation = 0, is_anomaly = False\<rparr>,
            \<lparr>row = 5, rolling_avg = 5, deviation = 0, is_anomaly = False\<rparr>]"
proof -
  have r: "rolling_mean 3 [5, 5, 5] = [5, 5, 5]" by code_simp
  have n: "nat 3 = 3" by simp
  show ?thesis
    by (simp add: detect_abnormal_spikes_def Let_def n r std_def variance_def gt_nan_def)
qed

theorem zero_variance_no_anomaly_witness:
  "detect_abnormal_spikes [5, 5, 5] (\<lambda>p. p) 3 2
     = Inr [\<lparr>row = 5, rolling_avg = 5, deviation = 0, is_anomaly = False\<rparr>,
            \<lparr>row = 5, rolling_avg = 5, deviation = 0, is_anomaly = False\<rparr>,
            \<lparr>row = 5, rolling_avg = 5, deviation = 0, is_anomaly = False\<rparr>]
   \<and> std [0, 0, 0] = Some 0
   \<and> list_all (\<lambda>r. \<not> is_anomaly r)
        [\<lparr>row = 5 :: real, rolling_avg = 5, deviation = 0, is_anomaly = False\<rparr>,
         \<lparr>row = 5, rolling_avg = 5, deviation = 0, is_anomaly = False\<rparr>,
         \<lparr>row = 5, rolling_avg = 5, deviation = 0, is_anomaly = False\<rparr>]
   \<and> (\<exists>rows. detect_abnormal_spikes [5, 5, 5] (\<lambda>p. p) 1 2 = Inr rows
          \<and> map row rows = [5, 5, 5]
          \<and> list_all (\<lambda>r. deviation r = 0 \<and> \<not> is_anomaly r) rows)
   \<and> (0 :: int) < 3 \<and> list_all (\<lambda>r. r = 5) [5, 5, 5 :: real]
   \<and> (\<exists>rows. detect_abnormal_spikes [5, 5, 5] (\<lambda>p. p) 3 2 = Inr rows
          \<and> map row rows = [5, 5, 5]
          \<and> list_all (\<lambda>r. deviation r = 0 \<and> \<not> is_anomaly r) rows)"
proof -
  let ?R = "[\<lparr>row = 5 :: real, rolling_avg = 5, deviation = 0, is_anomaly = False\<rparr>,
             \<lparr>row = 5, rolling_avg = 5, deviation = 0, is_anomaly = False\<rparr>,
             \<lparr>row = 5, rolling_avg = 5, deviation = 0, is_anomaly = False\<rparr>]"
  note th = zero_variance_no_anomaly [of "[5, 5, 5]" "\<lambda>p. p" 3 2 5]
  have s: "std [0, 0, 0] = Some 0" by (simp add: std_def variance_def)
  then have s': "std (map deviation ?R) = Some 0 \<or> std (map deviation ?R) = None" by simp
  from th have "detect_abnormal_spikes [5, 5, 5] (\<lambda>p. p) 3 2 = Inr ?R
        \<and> (std (map deviation ?R) = Some 0 \<or> std (map deviation ?R) = None)
      \<longrightarrow> list_all (\<lambda>r. \<not> is_anomaly r) ?R"
    by (elim conjE allE [of _ ?R])
  with constant_eval s' have c1: "list_all (\<lambda>r. \<not> is_anomaly r) ?R" by (simp only: simp_thms)
  from th have c2: "\<exists>rows. detect_abnormal_spikes [5, 5, 5] (\<lambda>p. p) 1 2 = Inr rows
          \<and> map row rows = [5, 5, 5]
          \<and> list_all (\<lambda>r. deviation r = 0 \<and> \<not> is_anomaly r) rows"
    by (elim conjE)
  have h: "(0 :: int) < 3 \<and> (\<forall>r\<in>set [5, 5, 5 :: real]. r = 5)" by simp
  from th have "0 < (3 :: int) \<and> (\<forall>r\<in>set [5, 5, 5 :: real]. r = 5)
        \<longrightarrow> (\<exists>rows. detect_abnormal_spikes [5, 5, 5] (\<lambda>p. p) 3 2 = Inr rows
               \<and> map row rows = [5, 5, 5]
               \<and> list_all (\<lambda>r. deviation r = 0 \<and> \<not> is_anomaly r) rows)"
    by (elim conjE)
  with h have c3: "\<exists>rows. detect_abnormal_spikes [5, 5, 5] (\<lambda>p. p) 3 2 = Inr rows
               \<and> map row rows = [5, 5, 5]
               \<and> list_all (\<lambda>r. deviation r = 0 \<and> \<not> is_anomaly r) rows"
    by (rule rev_mp)
  have l: "list_all (\<lambda>r. r = 5) [5, 5, 5 :: real]" by simp
  have p: "(0 :: int) < 3" by simp
  from constant_eval s c1 c2 p l c3 show ?thesis by (intro conjI)
qed

end
